theory Spec2Isabelle
  imports Complex_Main "HOL-Library.Sublist" "HOL-Library.Multiset"
begin

section \<open>Data model\<close>

text \<open>
  A timezone-aware Python \<open>datetime\<close> is a wall-clock reading together with the UTC
  offset its \<open>tzinfo\<close> gives it. Both are kept in microseconds, the resolution of
  \<open>datetime\<close>: \<open>wall_us\<close> counts the microseconds of the local wall clock since
  1970-01-01T00:00:00 on that same wall clock, \<open>utcoffset_us\<close> is the offset east of UTC.
  Comparison and subtraction of aware datetimes work on the UTC instant;
  \<open>strftime\<close> and \<open>replace\<close> work on the wall clock and keep the offset.
\<close>

record datetime =
  wall_us :: int
  utcoffset_us :: int

definition instant :: "datetime \<Rightarrow> int" where
  "instant d = wall_us d - utcoffset_us d"

definition dt_le :: "datetime \<Rightarrow> datetime \<Rightarrow> bool" where
  "dt_le a b \<longleftrightarrow> instant a \<le> instant b"

definition dt_lt :: "datetime \<Rightarrow> datetime \<Rightarrow> bool" where
  "dt_lt a b \<longleftrightarrow> instant a < instant b"

text \<open>\<open>a - b\<close> on datetimes: a \<open>timedelta\<close>, kept as its number of microseconds.\<close>

definition dt_sub :: "datetime \<Rightarrow> datetime \<Rightarrow> int" where
  "dt_sub a b = instant a - instant b"

text \<open>Python's \<open>min(a, b)\<close> and \<open>max(a, b)\<close> return \<open>a\<close> unless \<open>b\<close> is strictly better.\<close>

definition dt_min :: "datetime \<Rightarrow> datetime \<Rightarrow> datetime" where
  "dt_min a b = (if dt_lt b a then b else a)"

definition dt_max :: "datetime \<Rightarrow> datetime \<Rightarrow> datetime" where
  "dt_max a b = (if dt_lt a b then b else a)"

text \<open>
  \<open>timedelta.total_seconds()\<close> and the division by 60 that follows it are float
  operations in the source. The model keeps the exact quotient as a rational. The source
  compares such a value with an integer number of minutes (2 and 30 by default), or two
  durations in seconds with each other. Both float operations are monotone, exact at
  those thresholds, and keep apart two durations that differ by a microsecond (as long as
  they are shorter than a century), so the comparison on the exact quotient decides the
  same way.
\<close>

definition total_seconds :: "int \<Rightarrow> rat" where
  "total_seconds td = of_int td / 1000000"

definition minutes_of :: "int \<Rightarrow> rat" where
  "minutes_of td = total_seconds td / 60"

text \<open>The values an activity dict holds under its other keys.\<close>

datatype pyval =
  PNone
  | PBool bool
  | PInt int
  | PFloat rat
  | PStr string

text \<open>
  An activity is a dict. Every producer sets the keys \<open>source\<close>, \<open>title\<close>,
  \<open>start_time\<close> and \<open>end_time\<close>, and the functions below read them with \<open>[...]\<close>;
  they are fields of the record. All other keys (\<open>duration_minutes\<close>, the annotation
  keys, the payload of the source) live in \<open>other_fields\<close>, a map from key to value.
\<close>

record activity =
  source :: string
  title :: string
  start_time :: datetime
  end_time :: datetime
  other_fields :: "string \<rightharpoonup> pyval"

definition start_key :: "activity \<Rightarrow> int" where
  "start_key a = instant (start_time a)"

section \<open>Configuration (config.py)\<close>

definition ACTIVITY_MERGE_THRESHOLD :: int where
  "ACTIVITY_MERGE_THRESHOLD = 2"

definition DEFAULT_WORKING_HOURS :: "int \<times> int" where
  "DEFAULT_WORKING_HOURS = (9, 17)"

section \<open>Date-range filter\<close>

text \<open>
  \<open>filter_activities_by_date\<close>: the list comprehension, element by element.
\<close>

fun filter_activities_by_date :: "activity list \<Rightarrow> datetime \<Rightarrow> datetime \<Rightarrow> activity list" where
  "filter_activities_by_date [] start_date end_date = []"
| "filter_activities_by_date (activity # activities) start_date end_date =
     (if dt_le start_date (start_time activity) \<and> dt_le (end_time activity) end_date
      then activity # filter_activities_by_date activities start_date end_date
      else filter_activities_by_date activities start_date end_date)"

text \<open>An activity is contained in a range when it starts and ends inside it.\<close>

definition contained_in :: "datetime \<Rightarrow> datetime \<Rightarrow> activity \<Rightarrow> bool" where
  "contained_in start_date end_date a \<longleftrightarrow>
     instant start_date \<le> instant (start_time a) \<and> instant (end_time a) \<le> instant end_date"

text \<open>An activity overlaps a range partially when it meets the range and is not contained.\<close>

definition partially_overlaps :: "datetime \<Rightarrow> datetime \<Rightarrow> activity \<Rightarrow> bool" where
  "partially_overlaps start_date end_date a \<longleftrightarrow>
     instant (start_time a) \<le> instant end_date \<and> instant start_date \<le> instant (end_time a)
     \<and> \<not> contained_in start_date end_date a"

section \<open>Merge engine\<close>

text \<open>
  The test of the loop of \<open>merge_overlapping_activities\<close>: the next activity starts
  before the current one ends, or the gap between them, in minutes, is at most the threshold.
\<close>

definition should_merge :: "activity \<Rightarrow> activity \<Rightarrow> bool" where
  "should_merge current next_activity \<longleftrightarrow>
     dt_le (start_time next_activity) (end_time current)
     \<or> minutes_of (dt_sub (start_time next_activity) (end_time current))
         \<le> of_int ACTIVITY_MERGE_THRESHOLD"

text \<open>\<open>donor = current if current_duration > next_duration else next_activity\<close>\<close>

definition donor :: "activity \<Rightarrow> activity \<Rightarrow> activity" where
  "donor current next_activity =
     (let current_duration = total_seconds (dt_sub (end_time current) (start_time current));
          next_duration = total_seconds (dt_sub (end_time next_activity) (start_time next_activity))
      in if current_duration > next_duration then current else next_activity)"

text \<open>
  The merged dict: the four positional keys first, then every other key of the donor,
  then \<open>duration_minutes\<close> overwritten from the merged start and end.
\<close>

definition merged_activity :: "activity \<Rightarrow> activity \<Rightarrow> activity" where
  "merged_activity current next_activity =
     (let st = dt_min (start_time current) (start_time next_activity);
          en = dt_max (end_time current) (end_time next_activity)
      in \<lparr> source = source current @ '','' @ source next_activity,
           title = title current @ ''; '' @ title next_activity,
           start_time = st,
           end_time = en,
           other_fields = (other_fields (donor current next_activity))
                            (''duration_minutes'' \<mapsto> PFloat (minutes_of (dt_sub en st))) \<rparr>)"

text \<open>The loop over \<open>sorted_activities[1:]\<close>, with its two variables \<open>merged\<close> and \<open>current\<close>.\<close>

fun merge_loop :: "activity list \<Rightarrow> activity \<Rightarrow> activity list \<Rightarrow> activity list" where
  "merge_loop merged current [] = merged @ [current]"
| "merge_loop merged current (next_activity # rest) =
     (if should_merge current next_activity
      then merge_loop merged (merged_activity current next_activity) rest
      else merge_loop (merged @ [current]) next_activity rest)"

text \<open>
  Python's \<open>sorted\<close> is stable, as \<open>sort_key\<close> is. The empty input has the empty
  sorted list and returns the empty list; otherwise \<open>current\<close> starts as
  \<open>sorted_activities[0]\<close>.
\<close>

definition merge_overlapping_activities :: "activity list \<Rightarrow> activity list" where
  "merge_overlapping_activities activities =
     (case sort_key start_key activities of
        [] \<Rightarrow> []
      | current # rest \<Rightarrow> merge_loop [] current rest)"

section \<open>Gap filler\<close>

datatype py_error = ValueError

definition hour_us :: int where
  "hour_us = 3600000000"

definition day_us :: int where
  "day_us = 86400000000"

text \<open>
  \<open>d.replace(hour=h, minute=0, second=0, microsecond=0)\<close>: the same calendar day and the
  same \<open>tzinfo\<close>, the wall clock set to \<open>h:00:00\<close>. An hour outside 0..23 raises
  \<open>ValueError\<close>.
\<close>

definition replace_hour :: "datetime \<Rightarrow> int \<Rightarrow> py_error + datetime" where
  "replace_hour d h =
     (if 0 \<le> h \<and> h \<le> 23
      then Inr (d\<lparr> wall_us := (wall_us d div day_us) * day_us + h * hour_us \<rparr>)
      else Inl ValueError)"

text \<open>
  The body of the loop of \<open>fill_time_gaps\<close> for one pair: what is appended to \<open>result\<close>
  before the current activity, which is nothing or one gap activity.
\<close>

definition gap_between :: "int \<Rightarrow> int \<times> int \<Rightarrow> activity \<Rightarrow> activity \<Rightarrow> py_error + activity list" where
  "gap_between min_gap_minutes working_hours prev curr_activity =
     (let prev_end = end_time prev;
          curr_start = start_time curr_activity;
          gap_minutes = minutes_of (dt_sub curr_start prev_end)
      in if gap_minutes \<ge> of_int min_gap_minutes then
           (case replace_hour prev_end (fst working_hours) of
              Inl e \<Rightarrow> Inl e
            | Inr day_start \<Rightarrow>
                (case replace_hour prev_end (snd working_hours) of
                   Inl e \<Rightarrow> Inl e
                 | Inr day_end \<Rightarrow>
                     (let gap_start = dt_max prev_end day_start;
                          gap_end = dt_min curr_start day_end;
                          gap_minutes = minutes_of (dt_sub gap_end gap_start)
                      in if gap_minutes \<ge> of_int min_gap_minutes then
                           Inr [\<lparr> source = ''time_gap'',
                                  title = ''Unknown Activity'',
                                  start_time = gap_start,
                                  end_time = gap_end,
                                  other_fields =
                                    [''duration_minutes'' \<mapsto> PFloat gap_minutes,
                                     ''task_type'' \<mapsto> PStr ''Unknown'',
                                     ''jira_issue'' \<mapsto> PStr ''unknown'',
                                     ''description'' \<mapsto> PStr ''Untracked time'',
                                     ''billable'' \<mapsto> PBool False] \<rparr>]
                         else Inr [])))
         else Inr [])"

text \<open>
  The loop \<open>for i in range(1, len(sorted_activities))\<close>: \<open>prev\<close> is
  \<open>sorted_activities[i-1]\<close>, the head of the remaining list is \<open>sorted_activities[i]\<close>.
\<close>

fun fill_loop :: "int \<Rightarrow> int \<times> int \<Rightarrow> activity list \<Rightarrow> activity \<Rightarrow> activity list
                    \<Rightarrow> py_error + activity list" where
  "fill_loop min_gap_minutes working_hours result prev [] = Inr result"
| "fill_loop min_gap_minutes working_hours result prev (curr_activity # rest) =
     (case gap_between min_gap_minutes working_hours prev curr_activity of
        Inl e \<Rightarrow> Inl e
      | Inr gap \<Rightarrow>
          fill_loop min_gap_minutes working_hours (result @ gap @ [curr_activity])
            curr_activity rest)"

definition fill_time_gaps :: "activity list \<Rightarrow> int \<Rightarrow> int \<times> int \<Rightarrow> py_error + activity list" where
  "fill_time_gaps activities min_gap_minutes working_hours =
     (if length activities < 2 then Inr activities
      else (case sort_key start_key activities of
              [] \<Rightarrow> Inr []
            | first # rest \<Rightarrow> fill_loop min_gap_minutes working_hours [first] first rest))"

section \<open>Daily aggregator\<close>

text \<open>
  \<open>strftime('%Y-%m-%d')\<close> prints the calendar date of the wall clock. The day number
  (days since 1970-01-01) is turned into year, month and day of the proleptic Gregorian
  calendar, the calendar of \<open>datetime\<close>; a \<open>datetime\<close> has a year from 1 to 9999, printed
  with four digits.
\<close>

definition civil_from_days :: "int \<Rightarrow> int \<times> int \<times> int" where
  "civil_from_days days =
     (let z = days + 719468;
          era = z div 146097;
          doe = z - era * 146097;
          yoe = (doe - doe div 1460 + doe div 36524 - doe div 146096) div 365;
          doy = doe - (365 * yoe + yoe div 4 - yoe div 100);
          mp = (5 * doy + 2) div 153;
          d = doy - (153 * mp + 2) div 5 + 1;
          m = (if mp < 10 then mp + 3 else mp - 9);
          y = yoe + era * 400 + (if m \<le> 2 then 1 else 0)
      in (y, m, d))"

definition digit :: "int \<Rightarrow> char" where
  "digit n = ''0123456789'' ! nat (n mod 10)"

definition strftime_ymd :: "datetime \<Rightarrow> string" where
  "strftime_ymd d =
     (case civil_from_days (wall_us d div day_us) of
        (y, m, dd) \<Rightarrow>
          [digit (y div 1000), digit (y div 100), digit (y div 10), digit y, CHR ''-'',
           digit (m div 10), digit m, CHR ''-'',
           digit (dd div 10), digit dd])"

text \<open>
  The first loop of \<open>group_activities_by_day\<close>: each activity is appended to the list
  under the key made from its \<open>start_time\<close>; a key not yet in the dict starts with the
  empty list.
\<close>

fun group_loop :: "(string \<rightharpoonup> activity list) \<Rightarrow> activity list \<Rightarrow> (string \<rightharpoonup> activity list)" where
  "group_loop days [] = days"
| "group_loop days (activity # activities) =
     (let day_str = strftime_ymd (start_time activity);
          bucket = (case days day_str of None \<Rightarrow> [] | Some l \<Rightarrow> l)
      in group_loop (days(day_str \<mapsto> bucket @ [activity])) activities)"

text \<open>The second loop sorts the list of every day by start time.\<close>

definition group_activities_by_day :: "activity list \<Rightarrow> (string \<rightharpoonup> activity list)" where
  "group_activities_by_day activities =
     (\<lambda>day_str. map_option (sort_key start_key) (group_loop Map.empty activities day_str))"

text \<open>
  The reporting time zone of config.py is \<open>TIME_ZONE = 'UTC'\<close>.
  \<open>d.astimezone(pytz.timezone(TIME_ZONE))\<close> is the same instant read on the UTC wall clock.
\<close>

definition astimezone_TIME_ZONE :: "datetime \<Rightarrow> datetime" where
  "astimezone_TIME_ZONE d = \<lparr> wall_us = instant d, utcoffset_us = 0 \<rparr>"

section \<open>Submission of time entries\<close>

text \<open>
  A time entry is a dict. \<open>entry.get('jira_issue')\<close> and \<open>entry.get('start_time')\<close> have
  no default: a key that is absent and a key that holds \<open>None\<close> both read as \<open>None\<close>,
  and are \<open>None\<close> here. \<open>duration_minutes\<close> and \<open>description\<close> are read with a
  default, which stands in for an absent key only: a key that holds \<open>None\<close> reads as
  \<open>None\<close>. A duration is a Python \<open>int\<close> or a \<open>float\<close>, the float kept as the
  rational it denotes.
\<close>

datatype 'a entry_field = Absent | Holds_None | Holds 'a

datatype py_number = PyInt int | PyFloat rat

record time_entry =
  jira_issue :: "string option"
  duration_minutes :: "py_number entry_field"
  description :: "string entry_field"
  entry_start_time :: "datetime option"

text \<open>
  The arguments of one call of \<open>log_work\<close>; the description is \<open>None\<close> when the entry
  holds \<open>None\<close> under that key.
\<close>

record log_work_call =
  issue_key :: string
  time_spent_seconds :: int
  work_description :: "string option"
  work_start_time :: "datetime option"

record submit_results =
  success :: nat
  error :: nat
  skipped :: nat
  errors :: "(time_entry \<times> string) list"

datatype submit_error = JiraAuthenticationFailed | TypeError

text \<open>Python's \<open>int(x)\<close> on a number truncates toward zero.\<close>

definition py_int :: "rat \<Rightarrow> int" where
  "py_int x = (if x \<ge> 0 then \<lfloor>x\<rfloor> else \<lceil>x\<rceil>)"

text \<open>\<open>not entry.get('jira_issue') or entry.get('jira_issue') == 'unknown'\<close>\<close>

definition no_issue :: "time_entry \<Rightarrow> bool" where
  "no_issue entry \<longleftrightarrow>
     (case jira_issue entry of None \<Rightarrow> True | Some s \<Rightarrow> s = [] \<or> s = ''unknown'')"

text \<open>
  \<open>int(entry.get('duration_minutes', 0) * 60)\<close>. An absent key gives \<open>int(0 * 60)\<close>;
  \<open>None * 60\<close> raises \<open>TypeError\<close>; an \<open>int\<close> is multiplied exactly; a \<open>float\<close> is
  multiplied in floating point and the product truncated. The float product rounds, and
  the rounding can reach the next integer, so it is not replaced by the exact product:
  \<open>float_times_60\<close>, the function from a float to its float product with 60, is a
  parameter.
\<close>

definition duration_seconds :: "(rat \<Rightarrow> rat) \<Rightarrow> time_entry \<Rightarrow> submit_error + int" where
  "duration_seconds float_times_60 entry =
     (case duration_minutes entry of
        Absent \<Rightarrow> Inr 0
      | Holds_None \<Rightarrow> Inl TypeError
      | Holds (PyInt n) \<Rightarrow> Inr (n * 60)
      | Holds (PyFloat x) \<Rightarrow> Inr (py_int (float_times_60 x)))"

text \<open>\<open>entry.get('description', 'Work logged by ChronoLog')\<close>\<close>

definition get_description :: "time_entry \<Rightarrow> string option" where
  "get_description entry =
     (case description entry of
        Absent \<Rightarrow> Some ''Work logged by ChronoLog''
      | Holds_None \<Rightarrow> None
      | Holds d \<Rightarrow> Some d)"

text \<open>
  \<open>log_work\<close> first asks for the Jira client, outside its \<open>try\<close>: when the client
  cannot be authenticated, \<open>get_jira_client\<close> raises and the exception leaves
  \<open>log_work\<close>. With a client, \<open>log_work\<close> formats its arguments, calls
  \<open>add_worklog\<close> and answers \<open>True\<close>, or \<open>False\<close> when the call raised. What
  Jira does with a worklog is a parameter: a client is a function that says, from the
  calls made before and the arguments of this one, whether the worklog is added; no client
  is \<open>None\<close>.
\<close>

type_synonym jira_client = "(log_work_call list \<Rightarrow> log_work_call \<Rightarrow> bool) option"

definition log_work :: "jira_client \<Rightarrow> log_work_call list \<Rightarrow> log_work_call \<Rightarrow> submit_error + bool" where
  "log_work jira calls call =
     (case jira of
        None \<Rightarrow> Inl JiraAuthenticationFailed
      | Some add_worklog \<Rightarrow> Inr (add_worklog calls call))"

text \<open>
  The loop of \<open>submit_time_entries\<close>. Its state is the \<open>results\<close> dict and the calls
  of \<open>log_work\<close> made so far, in order. An exception leaves the loop and the function.
  Where \<open>entry['jira_issue']\<close> is read the key holds a non-empty string.
\<close>

fun submit_loop :: "jira_client \<Rightarrow> (rat \<Rightarrow> rat) \<Rightarrow> submit_results \<times> log_work_call list
                      \<Rightarrow> time_entry list \<Rightarrow> submit_error + submit_results \<times> log_work_call list" where
  "submit_loop jira float_times_60 (results, calls) [] = Inr (results, calls)"
| "submit_loop jira float_times_60 (results, calls) (entry # entries) =
     (if no_issue entry
      then submit_loop jira float_times_60
             (results\<lparr> skipped := skipped results + 1 \<rparr>, calls) entries
      else
        (case duration_seconds float_times_60 entry of
           Inl e \<Rightarrow> Inl e
         | Inr seconds \<Rightarrow>
             if seconds < 60
             then submit_loop jira float_times_60
                    (results\<lparr> skipped := skipped results + 1 \<rparr>, calls) entries
             else
               (let call = \<lparr> issue_key = (case jira_issue entry of None \<Rightarrow> [] | Some s \<Rightarrow> s),
                             time_spent_seconds = seconds,
                             work_description = get_description entry,
                             work_start_time = entry_start_time entry \<rparr>
                in case log_work jira calls call of
                     Inl e \<Rightarrow> Inl e
                   | Inr ok \<Rightarrow>
                       if ok
                       then submit_loop jira float_times_60
                              (results\<lparr> success := success results + 1 \<rparr>, calls @ [call])
                              entries
                       else submit_loop jira float_times_60
                              (results\<lparr> error := error results + 1,
                                        errors := errors results @
                                          [(entry, ''Failed to log work to issue ''
                                                     @ issue_key call)] \<rparr>,
                               calls @ [call]) entries)))"

definition submit_time_entries :: "jira_client \<Rightarrow> (rat \<Rightarrow> rat) \<Rightarrow> time_entry list
                                     \<Rightarrow> submit_error + submit_results \<times> log_work_call list" where
  "submit_time_entries jira float_times_60 entries =
     submit_loop jira float_times_60
       (\<lparr> success = 0, error = 0, skipped = 0, errors = [] \<rparr>, []) entries"

section \<open>Notions the properties are stated with\<close>

text \<open>The raw duration of an interval: \<open>end_time - start_time\<close>, in microseconds.\<close>

definition raw_duration :: "activity \<Rightarrow> int" where
  "raw_duration a = dt_sub (end_time a) (start_time a)"

definition end_key :: "activity \<Rightarrow> int" where
  "end_key a = instant (end_time a)"

text \<open>The covered time span of a non-empty sequence: earliest start and latest end.\<close>

definition covered_span :: "activity list \<Rightarrow> int \<times> int" where
  "covered_span X = (Min (start_key ` set X), Max (end_key ` set X))"

text \<open>The \<open>duration_minutes\<close> key holds the length of the interval in minutes.\<close>

definition duration_recomputed :: "activity \<Rightarrow> bool" where
  "duration_recomputed a \<longleftrightarrow>
     other_fields a ''duration_minutes''
       = Some (PFloat (minutes_of (dt_sub (end_time a) (start_time a))))"

text \<open>No two neighbours of the list would be merged by the loop.\<close>

fun separated :: "activity list \<Rightarrow> bool" where
  "separated [] = True"
| "separated [a] = True"
| "separated (a # b # rest) = (\<not> should_merge a b \<and> separated (b # rest))"

text \<open>\<open>h:00:00\<close> on the calendar day of \<open>d\<close>, on the wall clock of \<open>d\<close>.\<close>

definition on_day_of :: "datetime \<Rightarrow> int \<Rightarrow> datetime" where
  "on_day_of d h =
     \<lparr> wall_us = (wall_us d div day_us) * day_us + h * hour_us, utcoffset_us = utcoffset_us d \<rparr>"

definition valid_hours :: "int \<times> int \<Rightarrow> bool" where
  "valid_hours working_hours \<longleftrightarrow>
     0 \<le> fst working_hours \<and> fst working_hours \<le> 23
     \<and> 0 \<le> snd working_hours \<and> snd working_hours \<le> 23"

text \<open>A synthesized gap activity that covers at least \<open>min_gap_minutes\<close>.\<close>

definition is_gap :: "int \<Rightarrow> activity \<Rightarrow> bool" where
  "is_gap min_gap_minutes g \<longleftrightarrow>
     source g = ''time_gap''
     \<and> of_int min_gap_minutes \<le> minutes_of (dt_sub (end_time g) (start_time g))"

text \<open>
  \<open>interleaved P xs out\<close>: \<open>out\<close> is \<open>xs\<close>, every element in its place and order, with
  zero or more further elements put in between, each of which satisfies \<open>P\<close>.
\<close>

inductive interleaved :: "(activity \<Rightarrow> bool) \<Rightarrow> activity list \<Rightarrow> activity list \<Rightarrow> bool"
  for P :: "activity \<Rightarrow> bool" where
  finished: "interleaved P [] []"
| keep: "interleaved P xs out \<Longrightarrow> interleaved P (x # xs) (x # out)"
| insert_gap: "P g \<Longrightarrow> interleaved P xs out \<Longrightarrow> interleaved P xs (g # out)"

text \<open>
  The gap between \<open>prev\<close> and the activity after it, clipped to the working window of the
  calendar day on which \<open>prev\<close> ends: it starts at the later of \<open>prev\<close>'s end and the start
  of that day's window, and ends at the earlier of the next activity's start and the end
  of that same day's window.
\<close>

definition clipped_to_day_of_prev :: "int \<times> int \<Rightarrow> activity \<Rightarrow> activity \<Rightarrow> activity \<Rightarrow> bool" where
  "clipped_to_day_of_prev working_hours prev next_act g \<longleftrightarrow>
     start_time g = dt_max (end_time prev) (on_day_of (end_time prev) (fst working_hours))
     \<and> end_time g = dt_min (start_time next_act) (on_day_of (end_time prev) (snd working_hours))
     \<and> instant (end_time g) \<le> instant (on_day_of (end_time prev) (snd working_hours))"

text \<open>
  \<open>gaps_between R xs out\<close>: \<open>out\<close> is \<open>xs\<close> with at most one further element between
  two neighbours \<open>x\<close>, \<open>y\<close> of \<open>xs\<close>, and that element \<open>g\<close> satisfies \<open>R x y g\<close>.
\<close>

inductive gaps_between :: "(activity \<Rightarrow> activity \<Rightarrow> activity \<Rightarrow> bool) \<Rightarrow> activity list
                             \<Rightarrow> activity list \<Rightarrow> bool"
  for R :: "activity \<Rightarrow> activity \<Rightarrow> activity \<Rightarrow> bool" where
  none: "gaps_between R [] []"
| last: "gaps_between R [x] [x]"
| no_gap: "gaps_between R (y # xs) out \<Longrightarrow> gaps_between R (x # y # xs) (x # out)"
| one_gap: "R x y g \<Longrightarrow> gaps_between R (y # xs) out \<Longrightarrow> gaps_between R (x # y # xs) (x # g # out)"

text \<open>The day an activity starts on, read on the wall clock of its own \<open>start_time\<close>.\<close>

definition day_key :: "activity \<Rightarrow> string" where
  "day_key a = strftime_ymd (start_time a)"

text \<open>
  A gap as the gap filler synthesizes it between \<open>prev\<close> and the next activity: clipped
  to the working window of the day on which \<open>prev\<close> ends, and covering, so clipped, at
  least \<open>min_gap_minutes\<close>.
\<close>

definition clipped_gap :: "int \<Rightarrow> int \<times> int \<Rightarrow> activity \<Rightarrow> activity \<Rightarrow> activity \<Rightarrow> bool" where
  "clipped_gap min_gap_minutes working_hours prev next_act g \<longleftrightarrow>
     clipped_to_day_of_prev working_hours prev next_act g \<and> is_gap min_gap_minutes g"

text \<open>The issue of the entry is absent, \<open>None\<close>, the empty string or \<open>"unknown"\<close>.\<close>

definition issue_missing :: "time_entry \<Rightarrow> bool" where
  "issue_missing entry \<longleftrightarrow>
     jira_issue entry = None \<or> jira_issue entry = Some [] \<or> jira_issue entry = Some ''unknown''"

text \<open>
  The duration of the entry in seconds, as the step computes it
  (\<open>int(duration_minutes * 60)\<close>), is less than 60.
\<close>

definition too_short :: "(rat \<Rightarrow> rat) \<Rightarrow> time_entry \<Rightarrow> bool" where
  "too_short float_times_60 entry \<longleftrightarrow>
     (case duration_seconds float_times_60 entry of Inl e \<Rightarrow> False | Inr seconds \<Rightarrow> seconds < 60)"

text \<open>The entries the submission step leaves out.\<close>

definition excluded :: "(rat \<Rightarrow> rat) \<Rightarrow> time_entry \<Rightarrow> bool" where
  "excluded float_times_60 entry \<longleftrightarrow> issue_missing entry \<or> too_short float_times_60 entry"

text \<open>The same without the empty string: issue absent or \<open>"unknown"\<close>, or short duration.\<close>

definition excluded_absent_or_unknown :: "(rat \<Rightarrow> rat) \<Rightarrow> time_entry \<Rightarrow> bool" where
  "excluded_absent_or_unknown float_times_60 entry \<longleftrightarrow>
     jira_issue entry = None \<or> jira_issue entry = Some ''unknown''
     \<or> too_short float_times_60 entry"

text \<open>
  An entry that has an issue and holds \<open>None\<close> as its duration: the step raises
  \<open>TypeError\<close> on it.
\<close>

definition duration_unreadable :: "time_entry \<Rightarrow> bool" where
  "duration_unreadable entry \<longleftrightarrow> \<not> issue_missing entry \<and> duration_minutes entry = Holds_None"

text \<open>The arguments with which \<open>log_work\<close> is called for an entry that is submitted.\<close>

definition call_of :: "(rat \<Rightarrow> rat) \<Rightarrow> time_entry \<Rightarrow> log_work_call" where
  "call_of float_times_60 entry =
     \<lparr> issue_key = (case jira_issue entry of None \<Rightarrow> [] | Some s \<Rightarrow> s),
       time_spent_seconds =
         (case duration_seconds float_times_60 entry of Inl e \<Rightarrow> 0 | Inr seconds \<Rightarrow> seconds),
       work_description = get_description entry,
       work_start_time = entry_start_time entry \<rparr>"

section \<open>Example data\<close>

text \<open>
  \<open>wall_at off day h mi\<close> is \<open>h:mi\<close> on day number \<open>day\<close> (days since 1970-01-01) of a
  wall clock \<open>off\<close> hours east of UTC. Day 19723 is 2024-01-01.
\<close>

definition wall_at :: "int \<Rightarrow> int \<Rightarrow> int \<Rightarrow> int \<Rightarrow> datetime" where
  "wall_at offset_hours day_number h mi =
     \<lparr> wall_us = day_number * day_us + h * hour_us + mi * 60000000,
       utcoffset_us = offset_hours * hour_us \<rparr>"

definition mk_activity :: "string \<Rightarrow> string \<Rightarrow> datetime \<Rightarrow> datetime \<Rightarrow> (string \<rightharpoonup> pyval)
                            \<Rightarrow> activity" where
  "mk_activity src ttl st en fs =
     \<lparr> source = src, title = ttl, start_time = st, end_time = en, other_fields = fs \<rparr>"

text \<open>A meeting 09:00-09:05 and coding 09:02-09:30 on 2024-01-01 (UTC).\<close>

definition meeting_A :: activity where
  "meeting_A = mk_activity ''outlook'' ''Standup'' (wall_at 0 19723 9 0) (wall_at 0 19723 9 5)
     [''task_type'' \<mapsto> PStr ''Meeting'']"

definition coding_B :: activity where
  "coding_B = mk_activity ''wakatime'' ''Coding'' (wall_at 0 19723 9 2) (wall_at 0 19723 9 30)
     [''task_type'' \<mapsto> PStr ''Development'']"

text \<open>Two overlapping activities of ten minutes each: 09:00-09:10 and 09:05-09:15.\<close>

definition tie_current :: activity where
  "tie_current = mk_activity ''outlook'' ''Review'' (wall_at 0 19723 9 0) (wall_at 0 19723 9 10)
     [''task_type'' \<mapsto> PStr ''Meeting'']"

definition tie_next :: activity where
  "tie_next = mk_activity ''github'' ''Commit'' (wall_at 0 19723 9 5) (wall_at 0 19723 9 15)
     [''task_type'' \<mapsto> PStr ''Development'']"

text \<open>
  A chat group of a single message, as the Teams agent makes it: start and end are the
  time of the message, \<open>duration_minutes\<close> is \<open>max(duration, 1)\<close>, that is 1.
\<close>

definition chat_message :: activity where
  "chat_message = mk_activity ''teams'' ''Chat'' (wall_at 0 19723 9 0) (wall_at 0 19723 9 0)
     [''duration_minutes'' \<mapsto> PInt 1]"

definition review_C :: activity where
  "review_C = mk_activity ''github'' ''PR review'' (wall_at 0 19723 10 0) (wall_at 0 19723 10 30)
     [''duration_minutes'' \<mapsto> PInt 30]"

text \<open>
  Three days: work until 16:00 on 2024-01-01, 08:00 to 23:50 on 2024-01-02, and from 08:00
  on 2024-01-03.
\<close>

definition day_one :: activity where
  "day_one = mk_activity ''outlook'' ''Workshop'' (wall_at 0 19723 15 0) (wall_at 0 19723 16 0)
     Map.empty"

definition day_two :: activity where
  "day_two = mk_activity ''wakatime'' ''Release'' (wall_at 0 19724 8 0) (wall_at 0 19724 23 50)
     Map.empty"

definition day_three :: activity where
  "day_three = mk_activity ''outlook'' ''Retro'' (wall_at 0 19725 8 0) (wall_at 0 19725 9 0)
     Map.empty"

text \<open>The gap of 2024-01-01 from 16:00 to the end of the window at 17:00.\<close>

definition gap_day_one :: activity where
  "gap_day_one = mk_activity ''time_gap'' ''Unknown Activity''
     (wall_at 0 19723 16 0) (wall_at 0 19723 17 0)
     [''duration_minutes'' \<mapsto> PFloat 60,
      ''task_type'' \<mapsto> PStr ''Unknown'',
      ''jira_issue'' \<mapsto> PStr ''unknown'',
      ''description'' \<mapsto> PStr ''Untracked time'',
      ''billable'' \<mapsto> PBool False]"

text \<open>A gap of three hours inside the working day: activities until 09:00 and from 12:00.\<close>

definition until_nine :: activity where
  "until_nine = mk_activity ''outlook'' ''Breakfast'' (wall_at 0 19723 8 0) (wall_at 0 19723 9 0)
     Map.empty"

definition from_noon :: activity where
  "from_noon = mk_activity ''outlook'' ''Lunch'' (wall_at 0 19723 12 0) (wall_at 0 19723 13 0)
     Map.empty"

definition gap_morning :: activity where
  "gap_morning = mk_activity ''time_gap'' ''Unknown Activity''
     (wall_at 0 19723 9 0) (wall_at 0 19723 12 0)
     [''duration_minutes'' \<mapsto> PFloat 180,
      ''task_type'' \<mapsto> PStr ''Unknown'',
      ''jira_issue'' \<mapsto> PStr ''unknown'',
      ''description'' \<mapsto> PStr ''Untracked time'',
      ''billable'' \<mapsto> PBool False]"

text \<open>From 2024-01-01T23:00Z to 2024-01-02T01:00Z.\<close>

definition over_midnight :: activity where
  "over_midnight = mk_activity ''outlook'' ''Incident'' (wall_at 0 19723 23 0) (wall_at 0 19724 1 0)
     Map.empty"

text \<open>
  From 23:00 to 01:00 on a wall clock five hours west of UTC, as
  \<open>datetime.fromisoformat('2024-01-01T23:00:00-05:00')\<close> gives it: the instant
  2024-01-02T04:00Z.
\<close>

definition evening_west :: activity where
  "evening_west = mk_activity ''outlook'' ''Call'' (wall_at (-5) 19723 23 0) (wall_at (-5) 19724 1 0)
     Map.empty"

text \<open>
  Durations of 30.0 and 0.5 minutes; their products with 60 are exact in floating point.
\<close>

definition exact_times_60 :: "rat \<Rightarrow> rat" where
  "exact_times_60 x = x * 60"

definition entry_ok :: time_entry where
  "entry_ok = \<lparr> jira_issue = Some ''PROJ-1'', duration_minutes = Holds (PyFloat 30),
                description = Holds ''Standup'',
                entry_start_time = Some (wall_at 0 19723 9 0) \<rparr>"

definition entry_unknown :: time_entry where
  "entry_unknown = \<lparr> jira_issue = Some ''unknown'', duration_minutes = Holds (PyFloat 30),
                     description = Holds_None, entry_start_time = None \<rparr>"

definition entry_short :: time_entry where
  "entry_short = \<lparr> jira_issue = Some ''PROJ-2'', duration_minutes = Holds (PyFloat (1 / 2)),
                   description = Absent, entry_start_time = None \<rparr>"

text \<open>An entry whose issue cell was cleared: the key is there and holds the empty string.\<close>

definition entry_empty_issue :: time_entry where
  "entry_empty_issue = \<lparr> jira_issue = Some [], duration_minutes = Holds (PyFloat 30),
                         description = Holds ''Standup'', entry_start_time = None \<rparr>"

text \<open>An entry with an issue whose duration holds \<open>None\<close>.\<close>

definition entry_no_duration :: time_entry where
  "entry_no_duration = \<lparr> jira_issue = Some ''PROJ-3'', duration_minutes = Holds_None,
                         description = Holds_None, entry_start_time = None \<rparr>"

section \<open>Merge engine: the loop\<close>

lemma instant_dt_min: "instant (dt_min a b) = min (instant a) (instant b)"
  by (simp add: dt_min_def dt_lt_def)

lemma instant_dt_max: "instant (dt_max a b) = max (instant a) (instant b)"
  by (simp add: dt_max_def dt_lt_def)

lemma minutes_of_le_iff: "minutes_of td \<le> of_int m \<longleftrightarrow> td \<le> m * 60000000"
proof -
  have "minutes_of td = of_int td / 60000000"
    by (simp add: minutes_of_def total_seconds_def)
  moreover have "(of_int td / 60000000 \<le> (of_int m :: rat))
      \<longleftrightarrow> (of_int td :: rat) \<le> of_int (m * 60000000)"
    by (simp add: divide_le_eq)
  ultimately show ?thesis by (simp only: of_int_le_iff)
qed

lemma should_merge_iff:
  "should_merge a b \<longleftrightarrow>
     instant (start_time b) - instant (end_time a) \<le> max 0 (ACTIVITY_MERGE_THRESHOLD * 60000000)"
  by (auto simp: should_merge_def dt_le_def dt_sub_def minutes_of_le_iff)

lemma not_should_merge_gap:
  "\<not> should_merge a b \<Longrightarrow>
     instant (end_time a) < instant (start_time b) - ACTIVITY_MERGE_THRESHOLD * 60000000"
  by (simp add: should_merge_iff)

lemma merge_loop_append: "merge_loop merged c ns = merged @ merge_loop [] c ns"
proof (induction ns arbitrary: merged c)
  case Nil
  show ?case by simp
next
  case (Cons n ns)
  show ?case
  proof (cases "should_merge c n")
    case True
    then show ?thesis using Cons.IH [of merged "merged_activity c n"] by simp
  next
    case False
    then show ?thesis
      using Cons.IH [of "merged @ [c]" n] Cons.IH [of "[c]" n] by simp
  qed
qed

lemma merge_loop_Cons:
  "merge_loop [] c (n # ns) =
     (if should_merge c n then merge_loop [] (merged_activity c n) ns
      else c # merge_loop [] n ns)"
  using merge_loop_append [of "[c]" n ns] by simp

declare merge_loop.simps(2) [simp del]

lemma merge_loop_not_Nil: "merge_loop [] c ns \<noteq> []"
  by (induction ns arbitrary: c) (simp_all add: merge_loop_Cons)

lemma merge_pair:
  "start_key c \<le> start_key n \<Longrightarrow> should_merge c n
     \<Longrightarrow> merge_overlapping_activities [c, n] = [merged_activity c n]"
  by (simp add: merge_overlapping_activities_def merge_loop_Cons)

lemma merge_single: "merge_overlapping_activities [a] = [a]"
  by (simp add: merge_overlapping_activities_def)

lemmas example_defs =
  wall_at_def mk_activity_def day_us_def hour_us_def instant_def dt_le_def dt_lt_def
  dt_sub_def dt_min_def dt_max_def start_key_def end_key_def minutes_of_def total_seconds_def
  ACTIVITY_MERGE_THRESHOLD_def

lemma example_start_keys:
  "start_key meeting_A = 1704099600000000"
  "start_key coding_B = 1704099720000000"
  "start_key review_C = 1704103200000000"
  "start_key tie_current = 1704099600000000"
  "start_key tie_next = 1704099900000000"
  by (simp_all add: meeting_A_def coding_B_def review_C_def tie_current_def tie_next_def
      example_defs)

lemma example_end_keys:
  "end_key meeting_A = 1704099900000000"
  "end_key coding_B = 1704101400000000"
  "end_key review_C = 1704105000000000"
  by (simp_all add: meeting_A_def coding_B_def review_C_def example_defs)

lemma example_should_merge:
  "should_merge meeting_A coding_B"
  "should_merge tie_current tie_next"
  "\<not> should_merge (merged_activity meeting_A coding_B) review_C"
  by (simp_all add: should_merge_iff merged_activity_def Let_def meeting_A_def coding_B_def
      review_C_def tie_current_def tie_next_def example_defs)

lemma donor_fields:
  "k \<noteq> ''duration_minutes'' \<Longrightarrow>
     other_fields (merged_activity c n) k =
       other_fields (if raw_duration n < raw_duration c then c else n) k"
  by (simp add: merged_activity_def donor_def total_seconds_def Let_def divide_less_cancel
      raw_duration_def)

text \<open>
  C1 (as amended). When two intervals are merged, every field other than source, title,
  start_time, end_time and duration_minutes is the field of one of the two intervals as
  they were before the merge: of \<open>current\<close> if its raw duration is strictly greater than
  that of \<open>next\<close>, and of \<open>next\<close> otherwise, equal durations included. Two neighbours that
  the test joins are merged in this way by the engine.
\<close>

theorem merged_fields_from_donor:
  "(k \<noteq> ''duration_minutes'' \<longrightarrow>
      other_fields (merged_activity current next_activity) k =
        other_fields (if raw_duration next_activity < raw_duration current
                      then current else next_activity) k)
   \<and> (start_key current \<le> start_key next_activity \<and> should_merge current next_activity \<longrightarrow>
        merge_overlapping_activities [current, next_activity]
          = [merged_activity current next_activity])"
  by (simp add: donor_fields merge_pair)

theorem merged_fields_from_donor_witness:
  "''task_type'' \<noteq> ''duration_minutes''
   \<and> start_key meeting_A \<le> start_key coding_B \<and> should_merge meeting_A coding_B
   \<and> raw_duration meeting_A < raw_duration coding_B
   \<and> merge_overlapping_activities [meeting_A, coding_B] = [merged_activity meeting_A coding_B]
   \<and> other_fields (merged_activity meeting_A coding_B) ''task_type'' = Some (PStr ''Development'')"
proof -
  have d: "raw_duration meeting_A < raw_duration coding_B"
    by (simp add: raw_duration_def meeting_A_def coding_B_def example_defs)
  have f: "other_fields coding_B ''task_type'' = Some (PStr ''Development'')"
    by (simp add: coding_B_def mk_activity_def)
  show ?thesis
    using merged_fields_from_donor [of "''task_type''" meeting_A coding_B] d f
    by (simp add: example_start_keys example_should_merge)
qed

text \<open>
  The claim as it is written fails on equal durations: both intervals last ten minutes,
  and the merged interval has the task type of \<open>next\<close>, not of \<open>current\<close>.
\<close>

theorem tie_takes_fields_of_next:
  "raw_duration tie_next = raw_duration tie_current
   \<and> merge_overlapping_activities [tie_current, tie_next] = [merged_activity tie_current tie_next]
   \<and> other_fields tie_current ''task_type'' = Some (PStr ''Meeting'')
   \<and> other_fields (merged_activity tie_current tie_next) ''task_type''
        = Some (PStr ''Development'')"
proof -
  have d: "raw_duration tie_next = raw_duration tie_current"
    by (simp add: raw_duration_def tie_current_def tie_next_def example_defs)
  have "other_fields (merged_activity tie_current tie_next) ''task_type''
      = other_fields tie_next ''task_type''"
    using donor_fields [of "''task_type''" tie_current tie_next] d by simp
  moreover have "other_fields tie_next ''task_type'' = Some (PStr ''Development'')"
    by (simp add: tie_next_def mk_activity_def)
  moreover have "other_fields tie_current ''task_type'' = Some (PStr ''Meeting'')"
    by (simp add: tie_current_def mk_activity_def)
  moreover have "merge_overlapping_activities [tie_current, tie_next]
      = [merged_activity tie_current tie_next]"
    by (rule merge_pair) (simp_all add: example_start_keys example_should_merge)
  ultimately show ?thesis using d by simp
qed

section \<open>Merge engine: shape of the output\<close>

lemma should_merge_cong:
  "start_time b = start_time b' \<Longrightarrow> should_merge a b = should_merge a b'"
  by (simp add: should_merge_def)

lemma start_time_merged:
  "start_key c \<le> start_key n \<Longrightarrow> start_time (merged_activity c n) = start_time c"
  by (simp add: merged_activity_def Let_def dt_min_def dt_lt_def start_key_def)

lemma end_key_merged: "end_key (merged_activity c n) = max (end_key c) (end_key n)"
  by (simp add: merged_activity_def Let_def end_key_def instant_dt_max)

lemma start_key_merged: "start_key (merged_activity c n) = min (start_key c) (start_key n)"
  by (simp add: merged_activity_def Let_def start_key_def instant_dt_min)

lemma merge_loop_shape:
  "sorted (map start_key (c # ns)) \<Longrightarrow>
     \<exists>r rs. merge_loop [] c ns = r # rs \<and> start_time r = start_time c
        \<and> sorted (map start_key (r # rs)) \<and> separated (r # rs)"
proof (induction ns arbitrary: c)
  case Nil
  show ?case by simp
next
  case (Cons n ns)
  from Cons.prems have cn: "start_key c \<le> start_key n"
    and sn: "sorted (map start_key (n # ns))"
    and call: "\<forall>x\<in>set ns. start_key c \<le> start_key x" by auto
  show ?case
  proof (cases "should_merge c n")
    case True
    let ?m = "merged_activity c n"
    have st: "start_time ?m = start_time c" using cn by (rule start_time_merged)
    then have "start_key ?m = start_key c" by (simp add: start_key_def)
    with sn call have "sorted (map start_key (?m # ns))" by auto
    from Cons.IH [OF this] st True show ?thesis by (simp add: merge_loop_Cons)
  next
    case False
    from Cons.IH [OF sn] obtain r rs where
      r: "merge_loop [] n ns = r # rs" "start_time r = start_time n"
         "sorted (map start_key (r # rs))" "separated (r # rs)" by blast
    have "\<not> should_merge c r" using False should_merge_cong [OF r(2), of c] by simp
    moreover have "start_key r = start_key n" using r(2) by (simp add: start_key_def)
    ultimately show ?thesis using False r cn by (auto simp: merge_loop_Cons)
  qed
qed

lemma merge_loop_separated_id:
  "separated (c # ns) \<Longrightarrow> merge_loop [] c ns = c # ns"
  by (induction ns arbitrary: c) (simp_all add: merge_loop_Cons)

lemma merge_loop_length: "length (merge_loop [] c ns) \<le> Suc (length ns)"
proof (induction ns arbitrary: c)
  case Nil show ?case by simp
next
  case (Cons n ns)
  show ?case using Cons.IH [of "merged_activity c n"] Cons.IH [of n]
    by (simp add: merge_loop_Cons)
qed

lemma separated_nth:
  "separated ys \<Longrightarrow> Suc i < length ys \<Longrightarrow> \<not> should_merge (ys ! i) (ys ! Suc i)"
proof (induction ys arbitrary: i rule: separated.induct)
  case (3 a b rest)
  then show ?case by (cases i) auto
qed simp_all

lemma merge_sorted_separated:
  "sorted (map start_key (merge_overlapping_activities X))
   \<and> separated (merge_overlapping_activities X)"
proof (cases "sort_key start_key X")
  case Nil
  then show ?thesis by (simp add: merge_overlapping_activities_def)
next
  case (Cons c ns)
  have "sorted (map start_key (sort_key start_key X))" by simp
  with Cons have "sorted (map start_key (c # ns))" by simp
  from merge_loop_shape [OF this] Cons show ?thesis
    by (auto simp: merge_overlapping_activities_def)
qed

lemma merge_fixed:
  assumes "sorted (map start_key ys)" "separated ys"
  shows "merge_overlapping_activities ys = ys"
proof -
  have "sort_key start_key ys = ys" using assms(1) by (rule sort_key_id_if_sorted)
  then show ?thesis using assms(2)
    by (cases ys) (simp_all add: merge_overlapping_activities_def merge_loop_separated_id)
qed

lemma merge_length: "length (merge_overlapping_activities X) \<le> length X"
proof (cases "sort_key start_key X")
  case Nil
  then show ?thesis by (simp add: merge_overlapping_activities_def)
next
  case (Cons c ns)
  have "length (sort_key start_key X) = length X" by simp
  with Cons have "Suc (length ns) = length X" by simp
  with merge_loop_length [of c ns] Cons show ?thesis
    by (simp add: merge_overlapping_activities_def)
qed

lemma example_merge_three:
  "merge_overlapping_activities [review_C, coding_B, meeting_A]
     = [merged_activity meeting_A coding_B, review_C]"
  by (simp add: merge_overlapping_activities_def example_start_keys merge_loop_Cons
      example_should_merge)

lemma example_three_valid:
  "\<forall>a\<in>set [review_C, coding_B, meeting_A]. dt_le (start_time a) (end_time a)"
  by (simp add: review_C_def coding_B_def meeting_A_def example_defs)

text \<open>
  C3. For every sequence of valid intervals, the output of the merge engine is sorted
  ascending by start time, is no longer than the input, and for every two neighbours of
  the output the end of the first is not later than the start of the second minus the
  merge threshold (in microseconds: the threshold times 60000000).
\<close>

theorem merge_sorted_short_separated:
  assumes "\<forall>a\<in>set X. dt_le (start_time a) (end_time a)"
  shows "sorted (map start_key (merge_overlapping_activities X))
     \<and> length (merge_overlapping_activities X) \<le> length X
     \<and> (\<forall>i. Suc i < length (merge_overlapping_activities X) \<longrightarrow>
           instant (end_time (merge_overlapping_activities X ! i))
             \<le> instant (start_time (merge_overlapping_activities X ! Suc i))
                 - ACTIVITY_MERGE_THRESHOLD * 60000000)"
proof -
  let ?out = "merge_overlapping_activities X"
  have "sorted (map start_key ?out)" and sep: "separated ?out"
    using merge_sorted_separated [of X] by simp_all
  moreover have "length ?out \<le> length X" by (rule merge_length)
  moreover have "instant (end_time (?out ! i))
      \<le> instant (start_time (?out ! Suc i)) - ACTIVITY_MERGE_THRESHOLD * 60000000"
    if "Suc i < length ?out" for i
    using not_should_merge_gap [OF separated_nth [OF sep that]] by simp
  ultimately show ?thesis by blast
qed

theorem merge_sorted_short_separated_witness:
  "dt_le (start_time review_C) (end_time review_C)
   \<and> dt_le (start_time coding_B) (end_time coding_B)
   \<and> dt_le (start_time meeting_A) (end_time meeting_A)
   \<and> merge_overlapping_activities [review_C, coding_B, meeting_A]
        = [merged_activity meeting_A coding_B, review_C]
   \<and> sorted (map start_key [merged_activity meeting_A coding_B, review_C])
   \<and> length [merged_activity meeting_A coding_B, review_C]
        \<le> length [review_C, coding_B, meeting_A]
   \<and> instant (end_time (merged_activity meeting_A coding_B))
        \<le> instant (start_time review_C) - ACTIVITY_MERGE_THRESHOLD * 60000000"
proof -
  let ?X = "[review_C, coding_B, meeting_A]"
  let ?out = "[merged_activity meeting_A coding_B, review_C]"
  from merge_sorted_short_separated [OF example_three_valid]
  have s: "sorted (map start_key (merge_overlapping_activities ?X))"
    and l: "length (merge_overlapping_activities ?X) \<le> length ?X"
    and g: "\<forall>i. Suc i < length (merge_overlapping_activities ?X) \<longrightarrow>
           instant (end_time (merge_overlapping_activities ?X ! i))
             \<le> instant (start_time (merge_overlapping_activities ?X ! Suc i))
                 - ACTIVITY_MERGE_THRESHOLD * 60000000"
    by blast+
  from g [unfolded example_merge_three, rule_format, of 0]
  have "instant (end_time (merged_activity meeting_A coding_B))
        \<le> instant (start_time review_C) - ACTIVITY_MERGE_THRESHOLD * 60000000" by simp
  with s l example_three_valid show ?thesis
    unfolding example_merge_three by simp
qed

text \<open>
  C4. The merge engine is idempotent: merging the output of a merge changes nothing.
\<close>

theorem merge_idempotent:
  "merge_overlapping_activities (merge_overlapping_activities X)
     = merge_overlapping_activities X"
  using merge_sorted_separated [of X] by (simp add: merge_fixed)

section \<open>Merge engine: covered span\<close>

lemma Max_insert_max:
  "finite S \<Longrightarrow> Max (insert (max a b) S) = Max (insert (a::int) (insert b S))"
  by (cases "S = {}") (simp_all add: max.assoc)

lemma Min_insert_min:
  "finite S \<Longrightarrow> Min (insert (min a b) S) = Min (insert (a::int) (insert b S))"
  by (cases "S = {}") (simp_all add: min.assoc)

lemma merge_loop_Max_end:
  "Max (end_key ` set (merge_loop [] c ns)) = Max (end_key ` set (c # ns))"
proof (induction ns arbitrary: c)
  case Nil
  show ?case by simp
next
  case (Cons n ns)
  show ?case
  proof (cases "should_merge c n")
    case True
    then have "Max (end_key ` set (merge_loop [] c (n # ns)))
        = Max (end_key ` set (merged_activity c n # ns))"
      using Cons.IH [of "merged_activity c n"] by (simp add: merge_loop_Cons)
    also have "\<dots> = Max (end_key ` set (c # n # ns))"
      by (simp add: end_key_merged Max_insert_max)
    finally show ?thesis .
  next
    case False
    have ne: "end_key ` set (merge_loop [] n ns) \<noteq> {}"
      by (simp add: merge_loop_not_Nil)
    from False have "Max (end_key ` set (merge_loop [] c (n # ns)))
        = max (end_key c) (Max (end_key ` set (merge_loop [] n ns)))"
      using ne by (simp add: merge_loop_Cons)
    also have "\<dots> = max (end_key c) (Max (end_key ` set (n # ns)))"
      by (simp only: Cons.IH)
    also have "\<dots> = Max (end_key ` set (c # n # ns))"
      by simp
    finally show ?thesis .
  qed
qed

lemma merge_loop_Min_start:
  "Min (start_key ` set (merge_loop [] c ns)) = Min (start_key ` set (c # ns))"
proof (induction ns arbitrary: c)
  case Nil
  show ?case by simp
next
  case (Cons n ns)
  show ?case
  proof (cases "should_merge c n")
    case True
    then have "Min (start_key ` set (merge_loop [] c (n # ns)))
        = Min (start_key ` set (merged_activity c n # ns))"
      using Cons.IH [of "merged_activity c n"] by (simp add: merge_loop_Cons)
    also have "\<dots> = Min (start_key ` set (c # n # ns))"
      by (simp add: start_key_merged Min_insert_min)
    finally show ?thesis .
  next
    case False
    have ne: "start_key ` set (merge_loop [] n ns) \<noteq> {}"
      by (simp add: merge_loop_not_Nil)
    from False have "Min (start_key ` set (merge_loop [] c (n # ns)))
        = min (start_key c) (Min (start_key ` set (merge_loop [] n ns)))"
      using ne by (simp add: merge_loop_Cons)
    also have "\<dots> = min (start_key c) (Min (start_key ` set (n # ns)))"
      by (simp only: Cons.IH)
    also have "\<dots> = Min (start_key ` set (c # n # ns))"
      by simp
    finally show ?thesis .
  qed
qed

lemma merge_covered_span:
  assumes "X \<noteq> []"
  shows "covered_span (merge_overlapping_activities X) = covered_span X"
proof -
  from assms have "sort_key start_key X \<noteq> []"
    by (metis length_sort length_0_conv)
  then obtain c ns where cns: "sort_key start_key X = c # ns"
    by (cases "sort_key start_key X") auto
  have "set (c # ns) = set X" using cns set_sort [of start_key X] by simp
  then show ?thesis
    using cns merge_loop_Max_end [of c ns] merge_loop_Min_start [of c ns]
    by (simp add: covered_span_def merge_overlapping_activities_def)
qed

text \<open>
  C5. For every non-empty sequence of valid intervals, the covered time span of the
  merged sequence, from the earliest start to the latest end, is that of the input.
\<close>

theorem merge_keeps_covered_span:
  assumes "X \<noteq> []" and "\<forall>a\<in>set X. dt_le (start_time a) (end_time a)"
  shows "merge_overlapping_activities X \<noteq> []
     \<and> covered_span (merge_overlapping_activities X) = covered_span X"
proof -
  have "length (merge_overlapping_activities X) \<noteq> 0"
  proof (cases "sort_key start_key X")
    case Nil
    then have "length (sort_key start_key X) = 0" by simp
    with assms(1) show ?thesis by simp
  next
    case (Cons c ns)
    then show ?thesis by (simp add: merge_overlapping_activities_def merge_loop_not_Nil)
  qed
  then show ?thesis using merge_covered_span [OF assms(1)] by simp
qed

theorem merge_keeps_covered_span_witness:
  "[review_C, coding_B, meeting_A] \<noteq> []
   \<and> dt_le (start_time review_C) (end_time review_C)
   \<and> dt_le (start_time coding_B) (end_time coding_B)
   \<and> dt_le (start_time meeting_A) (end_time meeting_A)
   \<and> covered_span (merge_overlapping_activities [review_C, coding_B, meeting_A])
        = covered_span [review_C, coding_B, meeting_A]
   \<and> covered_span [review_C, coding_B, meeting_A] = (start_key meeting_A, end_key review_C)"
proof -
  have "covered_span [review_C, coding_B, meeting_A] = (start_key meeting_A, end_key review_C)"
    by (simp add: covered_span_def example_start_keys example_end_keys)
  then show ?thesis
    using merge_keeps_covered_span [OF _ example_three_valid] example_three_valid by simp
qed

section \<open>Merge engine: duration_minutes\<close>

lemma merged_activity_recomputed: "duration_recomputed (merged_activity c n)"
  by (simp add: duration_recomputed_def merged_activity_def Let_def)

lemma merge_loop_duration:
  "c \<in> S \<or> duration_recomputed c \<Longrightarrow> set ns \<subseteq> S \<Longrightarrow> a \<in> set (merge_loop [] c ns)
     \<Longrightarrow> a \<in> S \<or> duration_recomputed a"
proof (induction ns arbitrary: c)
  case Nil
  then show ?case by auto
next
  case (Cons n ns)
  show ?case
  proof (cases "should_merge c n")
    case True
    with Cons.prems have "a \<in> set (merge_loop [] (merged_activity c n) ns)"
      by (simp add: merge_loop_Cons)
    with Cons.IH [of "merged_activity c n"] Cons.prems(2) show ?thesis
      by (simp add: merged_activity_recomputed)
  next
    case False
    with Cons.prems have "a = c \<or> a \<in> set (merge_loop [] n ns)"
      by (simp add: merge_loop_Cons)
    with Cons.IH [of n] Cons.prems show ?thesis by auto
  qed
qed

lemma merge_duration:
  assumes "a \<in> set (merge_overlapping_activities X)"
  shows "a \<in> set X \<or> duration_recomputed a"
proof (cases "sort_key start_key X")
  case Nil
  with assms show ?thesis by (simp add: merge_overlapping_activities_def)
next
  case (Cons c ns)
  have "set (c # ns) = set X" using Cons set_sort [of start_key X] by simp
  then have "c \<in> set X" "set ns \<subseteq> set X" by auto
  with merge_loop_duration [of c "set X" ns a] assms Cons show ?thesis
    by (simp add: merge_overlapping_activities_def)
qed

text \<open>
  C2 (as amended). Every interval that a merge produces has its duration_minutes
  recomputed as end_time minus start_time in minutes; hence every interval of the output
  either has this recomputed duration_minutes or is an interval of the input, passed
  through unchanged with whatever duration_minutes the input gave it.
\<close>

theorem merged_duration_recomputed:
  "duration_recomputed (merged_activity current next_activity)
   \<and> (\<forall>a\<in>set (merge_overlapping_activities X). a \<in> set X \<or> duration_recomputed a)"
  by (simp add: merged_activity_recomputed merge_duration)

theorem merged_duration_recomputed_witness:
  "merge_overlapping_activities [meeting_A, coding_B] = [merged_activity meeting_A coding_B]
   \<and> merged_activity meeting_A coding_B \<notin> set [meeting_A, coding_B]
   \<and> duration_recomputed (merged_activity meeting_A coding_B)
   \<and> other_fields (merged_activity meeting_A coding_B) ''duration_minutes'' = Some (PFloat 30)"
proof -
  have m: "merge_overlapping_activities [meeting_A, coding_B]
      = [merged_activity meeting_A coding_B]"
    by (rule merge_pair) (simp_all add: example_start_keys example_should_merge)
  have n: "merged_activity meeting_A coding_B \<notin> set [meeting_A, coding_B]"
  proof -
    have "source (merged_activity meeting_A coding_B) \<noteq> source meeting_A"
      "source (merged_activity meeting_A coding_B) \<noteq> source coding_B"
      by (simp_all add: merged_activity_def Let_def meeting_A_def coding_B_def mk_activity_def)
    then show ?thesis by auto
  qed
  have v: "other_fields (merged_activity meeting_A coding_B) ''duration_minutes''
      = Some (PFloat 30)"
    by (simp add: merged_activity_def Let_def meeting_A_def coding_B_def example_defs)
  from merged_duration_recomputed [of meeting_A coding_B "[meeting_A, coding_B]"]
  have "duration_recomputed (merged_activity meeting_A coding_B)" by blast
  with m n v show ?thesis by blast
qed

text \<open>
  The claim as it is written fails for an interval that is passed through: a chat group
  of one message goes in with start equal to end and duration_minutes 1, and comes out
  the same.
\<close>

theorem passed_through_duration_kept:
  "merge_overlapping_activities [chat_message] = [chat_message]
   \<and> other_fields chat_message ''duration_minutes'' = Some (PInt 1)
   \<and> minutes_of (dt_sub (end_time chat_message) (start_time chat_message)) = 0
   \<and> \<not> duration_recomputed chat_message"
  by (simp add: merge_single duration_recomputed_def chat_message_def example_defs)

section \<open>Properties of the gap filler\<close>

lemma replace_hour_on_day:
  "0 \<le> h \<Longrightarrow> h \<le> 23 \<Longrightarrow> replace_hour d h = Inr (on_day_of d h)"
  by (simp add: replace_hour_def on_day_of_def)

lemma gap_between_valid:
  assumes "valid_hours wh"
  shows "gap_between m wh prev c = Inr []
     \<or> (\<exists>g. gap_between m wh prev c = Inr [g] \<and> is_gap m g
             \<and> clipped_to_day_of_prev wh prev c g)"
  using assms
  by (simp add: gap_between_def Let_def valid_hours_def replace_hour_on_day is_gap_def
      clipped_to_day_of_prev_def instant_dt_min)

lemma interleaved_subseq: "interleaved P xs out \<Longrightarrow> subseq xs out"
  by (induction rule: interleaved.induct) auto

lemma interleaved_length: "interleaved P xs out \<Longrightarrow> length xs \<le> length out"
  by (induction rule: interleaved.induct) auto

lemma fill_loop_gaps_between:
  assumes "valid_hours wh"
  shows "\<exists>gs. fill_loop m wh result prev rest = Inr (result @ gs)
           \<and> gaps_between (clipped_gap m wh) (prev # rest) (prev # gs)"
proof (induction rest arbitrary: result prev)
  case Nil
  show ?case by (simp add: gaps_between.last)
next
  case (Cons c rest)
  from gap_between_valid [OF assms, of m prev c]
  obtain gp where gp: "gap_between m wh prev c = Inr gp"
    and gp_ok: "gp = [] \<or> (\<exists>g. gp = [g] \<and> clipped_gap m wh prev c g)"
    by (auto simp: clipped_gap_def)
  from Cons.IH [of "result @ gp @ [c]" c] obtain gs where
    gs: "fill_loop m wh (result @ gp @ [c]) c rest = Inr ((result @ gp @ [c]) @ gs)"
        "gaps_between (clipped_gap m wh) (c # rest) (c # gs)" by blast
  have "gaps_between (clipped_gap m wh) (prev # c # rest) (prev # gp @ c # gs)"
    using gp_ok gs(2) by (auto intro: gaps_between.no_gap gaps_between.one_gap)
  with gp gs(1) show ?case by simp
qed

lemma fill_time_gaps_gaps_between:
  assumes "valid_hours wh"
  shows "\<exists>out. fill_time_gaps X m wh = Inr out
           \<and> gaps_between (clipped_gap m wh) (sort_key start_key X) out"
proof (cases "length X < 2")
  case True
  then have "gaps_between (clipped_gap m wh) X X"
    by (cases X) (auto simp: Suc_less_eq2 intro: gaps_between.intros)
  with True show ?thesis
    by (cases X) (simp_all add: fill_time_gaps_def Suc_less_eq2)
next
  case False
  then have "length (sort_key start_key X) \<noteq> 0" by (cases X) simp_all
  then obtain first rest where s: "sort_key start_key X = first # rest"
    by (cases "sort_key start_key X") auto
  from fill_loop_gaps_between [OF assms, of m "[first]" first rest]
  show ?thesis using False s by (auto simp: fill_time_gaps_def)
qed

lemma gaps_between_mono:
  assumes "gaps_between R xs out" and "\<And>x y g. R x y g \<Longrightarrow> S x y g"
  shows "gaps_between S xs out"
  using assms(1)
  by (induction rule: gaps_between.induct) (auto intro: gaps_between.intros assms(2))

lemma gaps_between_interleaved:
  assumes "gaps_between R xs out" and "\<And>x y g. R x y g \<Longrightarrow> P g"
  shows "interleaved P xs out"
  using assms(1)
  by (induction rule: gaps_between.induct) (auto intro: interleaved.intros assms(2))

lemma sort_key_short: "length X < 2 \<Longrightarrow> sort_key f X = X"
  by (cases X) (simp_all add: Suc_less_eq2)

lemma example_gap_keys:
  "start_key day_one \<le> start_key day_two" "start_key day_two \<le> start_key day_three"
  "start_key day_one \<le> start_key day_three"
  "start_key until_nine \<le> start_key from_noon"
  by (simp_all add: day_one_def day_two_def day_three_def until_nine_def from_noon_def
      example_defs)

lemma example_gap_between:
  "gap_between 30 (9, 17) day_one day_two = Inr [gap_day_one]"
  "gap_between 30 (9, 17) day_two day_three = Inr []"
  "gap_between 30 (9, 17) until_nine from_noon = Inr [gap_morning]"
  by (simp_all add: gap_between_def replace_hour_def Let_def day_one_def day_two_def
      day_three_def gap_day_one_def until_nine_def from_noon_def gap_morning_def example_defs)

lemma example_fill_three:
  "fill_time_gaps [day_one, day_two, day_three] 30 DEFAULT_WORKING_HOURS
     = Inr [day_one, gap_day_one, day_two, day_three]"
  by (simp add: fill_time_gaps_def DEFAULT_WORKING_HOURS_def example_gap_keys
      example_gap_between)

text \<open>
  The case of the specification: one interval ends at 23:50, the next starts at 08:00 the
  day after, the window ends at 17:00. Nothing is put between them.
\<close>

lemma example_fill_overnight:
  "fill_time_gaps [day_two, day_three] 30 DEFAULT_WORKING_HOURS = Inr [day_two, day_three]"
  by (simp add: fill_time_gaps_def DEFAULT_WORKING_HOURS_def example_gap_keys
      example_gap_between)

lemma example_fill_morning:
  "fill_time_gaps [until_nine, from_noon] 30 DEFAULT_WORKING_HOURS
     = Inr [until_nine, gap_morning, from_noon]"
  by (simp add: fill_time_gaps_def DEFAULT_WORKING_HOURS_def example_gap_keys
      example_gap_between)

text \<open>
  C6. With working hours that \<open>replace\<close> accepts, the gap filler returns the sorted input
  with at most one gap interval between two neighbours, and every such gap is clipped
  against the working window of the calendar day on which the earlier neighbour ends, and
  of that day only: it ends at the earlier of the next start and the end of the window of
  that day, so never after it. With an interval that ends at 23:50 and the next one that
  starts at 08:00 on the following day, and a window that ends at 17:00, no gap reaches
  past 17:00 of the first day.
\<close>

theorem fill_time_gaps_clips_to_day_of_prev:
  assumes "valid_hours working_hours"
  shows "\<exists>out. fill_time_gaps X min_gap_minutes working_hours = Inr out
           \<and> gaps_between (clipped_to_day_of_prev working_hours) (sort_key start_key X) out"
proof -
  from fill_time_gaps_gaps_between [OF assms, of X min_gap_minutes] obtain out where
    "fill_time_gaps X min_gap_minutes working_hours = Inr out"
    "gaps_between (clipped_gap min_gap_minutes working_hours) (sort_key start_key X) out"
    by blast
  moreover from this(2)
  have "gaps_between (clipped_to_day_of_prev working_hours) (sort_key start_key X) out"
    by (rule gaps_between_mono) (simp add: clipped_gap_def)
  ultimately show ?thesis by blast
qed

theorem fill_time_gaps_clips_to_day_of_prev_witness:
  "valid_hours DEFAULT_WORKING_HOURS
   \<and> fill_time_gaps [day_one, day_two, day_three] 30 DEFAULT_WORKING_HOURS
        = Inr [day_one, gap_day_one, day_two, day_three]
   \<and> gaps_between (clipped_to_day_of_prev DEFAULT_WORKING_HOURS)
        [day_one, day_two, day_three] [day_one, gap_day_one, day_two, day_three]
   \<and> end_time gap_day_one = on_day_of (end_time day_one) 17
   \<and> end_time gap_day_one = wall_at 0 19723 17 0"
proof -
  have v: "valid_hours DEFAULT_WORKING_HOURS"
    by (simp add: valid_hours_def DEFAULT_WORKING_HOURS_def)
  have s: "sort_key start_key [day_one, day_two, day_three] = [day_one, day_two, day_three]"
    by (simp add: example_gap_keys)
  have e: "end_time gap_day_one = on_day_of (end_time day_one) 17"
    "end_time gap_day_one = wall_at 0 19723 17 0"
    by (simp_all add: gap_day_one_def day_one_def on_day_of_def example_defs)
  from fill_time_gaps_clips_to_day_of_prev [OF v, of "[day_one, day_two, day_three]" 30]
  have "gaps_between (clipped_to_day_of_prev DEFAULT_WORKING_HOURS)
        [day_one, day_two, day_three] [day_one, gap_day_one, day_two, day_three]"
    unfolding s example_fill_three by simp
  with v e example_fill_three show ?thesis by blast
qed

text \<open>
  C7. For every input sorted by start time, and working hours that \<open>replace\<close> accepts,
  the gap filler returns every interval of the input, in the order of the input, with
  zero or more synthesized gap intervals in between, so the output is at least as long
  as the input. There is at most one gap between two neighbours of the input, and it is
  the span between them clipped to the working window (of the day on which the earlier
  one ends); the span it covers, so clipped, is at least \<open>min_gap_minutes\<close>. No gap is
  there for a span that is shorter after clipping.
\<close>

theorem fill_time_gaps_interleaves:
  assumes "sorted (map start_key X)" and "valid_hours working_hours"
  shows "\<exists>out. fill_time_gaps X min_gap_minutes working_hours = Inr out
           \<and> gaps_between (clipped_gap min_gap_minutes working_hours) X out
           \<and> interleaved (is_gap min_gap_minutes) X out
           \<and> subseq X out \<and> length X \<le> length out"
proof -
  have sx: "sort_key start_key X = X" using assms(1) by (rule sort_key_id_if_sorted)
  from fill_time_gaps_gaps_between [OF assms(2), of X min_gap_minutes] obtain out where
    out: "fill_time_gaps X min_gap_minutes working_hours = Inr out"
    and g: "gaps_between (clipped_gap min_gap_minutes working_hours) X out"
    unfolding sx by blast
  have "interleaved (is_gap min_gap_minutes) X out"
    using g by (rule gaps_between_interleaved) (simp add: clipped_gap_def)
  with out g show ?thesis
    by (blast intro: interleaved_subseq interleaved_length)
qed

theorem fill_time_gaps_interleaves_witness:
  "sorted (map start_key [until_nine, from_noon])
   \<and> valid_hours DEFAULT_WORKING_HOURS
   \<and> fill_time_gaps [until_nine, from_noon] 30 DEFAULT_WORKING_HOURS
        = Inr [until_nine, gap_morning, from_noon]
   \<and> gaps_between (clipped_gap 30 DEFAULT_WORKING_HOURS)
        [until_nine, from_noon] [until_nine, gap_morning, from_noon]
   \<and> interleaved (is_gap 30) [until_nine, from_noon] [until_nine, gap_morning, from_noon]
   \<and> clipped_gap 30 DEFAULT_WORKING_HOURS until_nine from_noon gap_morning
   \<and> minutes_of (dt_sub (end_time gap_morning) (start_time gap_morning)) = 180"
proof -
  have s: "sorted (map start_key [until_nine, from_noon])"
    by (simp add: example_gap_keys)
  have v: "valid_hours DEFAULT_WORKING_HOURS"
    by (simp add: valid_hours_def DEFAULT_WORKING_HOURS_def)
  have c: "clipped_gap 30 DEFAULT_WORKING_HOURS until_nine from_noon gap_morning"
    "minutes_of (dt_sub (end_time gap_morning) (start_time gap_morning)) = 180"
    by (simp_all add: clipped_gap_def clipped_to_day_of_prev_def is_gap_def on_day_of_def
        DEFAULT_WORKING_HOURS_def gap_morning_def until_nine_def from_noon_def example_defs)
  from fill_time_gaps_interleaves [OF s v, of 30]
  have "gaps_between (clipped_gap 30 DEFAULT_WORKING_HOURS)
          [until_nine, from_noon] [until_nine, gap_morning, from_noon]
        \<and> interleaved (is_gap 30) [until_nine, from_noon] [until_nine, gap_morning, from_noon]"
    unfolding example_fill_morning by simp
  with s v c example_fill_morning show ?thesis by blast
qed

text \<open>
  A gap from 23:50 to 08:00 of the next day, not clipped, covers 490 minutes; clipped to
  the window of the day on which the first interval ends it covers less than 30, and it
  is not a gap the filler may put there.
\<close>

lemma unclipped_gap_is_none:
  "is_gap 30 (mk_activity ''time_gap'' ''Unknown Activity''
                (end_time day_two) (start_time day_three) Map.empty)
   \<and> \<not> clipped_gap 30 DEFAULT_WORKING_HOURS day_two day_three
         (mk_activity ''time_gap'' ''Unknown Activity''
            (end_time day_two) (start_time day_three) Map.empty)"
  by (simp add: clipped_gap_def clipped_to_day_of_prev_def is_gap_def on_day_of_def
      DEFAULT_WORKING_HOURS_def day_two_def day_three_def example_defs)

section \<open>Properties of the daily aggregator\<close>

lemma group_loop_eq:
  "group_loop days xs k =
     (if filter (\<lambda>a. day_key a = k) xs = [] then days k
      else Some ((case days k of None \<Rightarrow> [] | Some l \<Rightarrow> l) @ filter (\<lambda>a. day_key a = k) xs))"
proof (induction xs arbitrary: days)
  case Nil
  show ?case by simp
next
  case (Cons a xs)
  show ?case
    by (simp add: Cons.IH Let_def day_key_def)
qed

lemma group_by_day_eq:
  "group_activities_by_day xs k =
     (if \<exists>a\<in>set xs. day_key a = k
      then Some (sort_key start_key (filter (\<lambda>a. day_key a = k) xs))
      else None)"
  by (auto simp: group_activities_by_day_def group_loop_eq filter_empty_conv)

lemma example_day_keys:
  "day_key over_midnight = ''2024-01-01''"
  "day_key evening_west = ''2024-01-01''"
  "strftime_ymd (end_time over_midnight) = ''2024-01-02''"
  "strftime_ymd (astimezone_TIME_ZONE (start_time evening_west)) = ''2024-01-02''"
  by code_simp+

text \<open>
  C8 (as amended). The daily aggregator puts every interval, whole, under the calendar day
  of its start_time, formatted YYYY-MM-DD on the wall clock the start_time itself
  carries (its own UTC offset; no conversion to a configured zone is made): the list under
  a day is exactly the intervals of the input that start on that day, sorted by start
  time, and a day on which no interval starts has no entry. So an interval is under one
  day only, and an interval from 2024-01-01T23:00Z to 2024-01-02T01:00Z is under
  2024-01-01 and not under 2024-01-02.
\<close>

theorem group_by_day_of_start:
  "group_activities_by_day xs k =
     (if \<exists>a\<in>set xs. day_key a = k
      then Some (sort_key start_key (filter (\<lambda>a. day_key a = k) xs))
      else None)
   \<and> (a \<in> set xs \<longrightarrow> (\<exists>l. group_activities_by_day xs (day_key a) = Some l \<and> a \<in> set l))
   \<and> (group_activities_by_day xs k = Some l \<and> a \<in> set l \<longrightarrow> a \<in> set xs \<and> day_key a = k)"
  by (auto simp: group_by_day_eq split: if_splits)

theorem group_by_day_of_start_witness:
  "day_key over_midnight = ''2024-01-01''
   \<and> strftime_ymd (end_time over_midnight) = ''2024-01-02''
   \<and> group_activities_by_day [over_midnight] ''2024-01-01'' = Some [over_midnight]
   \<and> group_activities_by_day [over_midnight] ''2024-01-02'' = None"
proof -
  from group_by_day_of_start [of "[over_midnight]" "''2024-01-01''"]
  have "group_activities_by_day [over_midnight] ''2024-01-01'' = Some [over_midnight]"
    by (simp add: example_day_keys)
  moreover
  from group_by_day_of_start [of "[over_midnight]" "''2024-01-02''"]
  have "group_activities_by_day [over_midnight] ''2024-01-02'' = None"
    by (simp add: example_day_keys)
  ultimately show ?thesis by (simp add: example_day_keys)
qed

text \<open>
  The claim as it is written fails where the start_time carries another offset than the
  configured zone (UTC): an interval that starts at 23:00 on 2024-01-01 five hours west
  of UTC starts on 2024-01-02 in the configured zone, and is put under 2024-01-01.
\<close>

theorem day_is_not_of_configured_zone:
  "strftime_ymd (astimezone_TIME_ZONE (start_time evening_west)) = ''2024-01-02''
   \<and> group_activities_by_day [evening_west] ''2024-01-02'' = None
   \<and> group_activities_by_day [evening_west] ''2024-01-01'' = Some [evening_west]"
  by (simp add: group_by_day_eq example_day_keys)

section \<open>Properties of the submission step\<close>

lemma issue_missing_iff: "issue_missing entry \<longleftrightarrow> no_issue entry"
  by (auto simp: issue_missing_def no_issue_def split: option.splits)

lemma py_int_less_iff: "py_int x < 60 \<longleftrightarrow> x < 60"
  by (auto simp: py_int_def floor_less_iff ceiling_less_iff)

text \<open>
  Where the duration is an \<open>int\<close>, or a \<open>float\<close> whose product is exact, the entry is too
  short exactly when it lasts less than one minute.
\<close>

lemma too_short_exact:
  "too_short exact_times_60 entry \<longleftrightarrow>
     (case duration_minutes entry of
        Absent \<Rightarrow> True
      | Holds_None \<Rightarrow> False
      | Holds (PyInt n) \<Rightarrow> n < 1
      | Holds (PyFloat x) \<Rightarrow> x < 1)"
  by (auto simp: too_short_def duration_seconds_def exact_times_60_def py_int_less_iff
      split: entry_field.splits py_number.splits)

lemma readable_duration:
  "\<not> duration_unreadable entry \<Longrightarrow> \<not> no_issue entry
     \<Longrightarrow> \<exists>seconds. duration_seconds t entry = Inr seconds"
  by (auto simp: duration_unreadable_def issue_missing_iff duration_seconds_def
      split: entry_field.splits py_number.splits)

lemma submit_loop_eq:
  assumes "\<forall>e\<in>set es. \<not> duration_unreadable e"
  shows "\<exists>r' calls'. submit_loop (Some add_worklog) t (r, calls) es = Inr (r', calls')
     \<and> skipped r' = skipped r + length (filter (excluded t) es)
     \<and> calls' = calls @ map (call_of t) (filter (\<lambda>e. \<not> excluded t e) es)
     \<and> success r' + error r'
         = success r + error r + length (filter (\<lambda>e. \<not> excluded t e) es)"
  using assms
proof (induction es arbitrary: r calls)
  case Nil
  show ?case by simp
next
  case (Cons e es)
  from Cons.prems have rest: "\<forall>e\<in>set es. \<not> duration_unreadable e"
    and this_one: "\<not> duration_unreadable e" by simp_all
  note IH = Cons.IH [OF rest]
  show ?case
  proof (cases "no_issue e")
    case True
    then have ex: "excluded t e" by (simp add: excluded_def issue_missing_iff)
    from True have "submit_loop (Some add_worklog) t (r, calls) (e # es)
        = submit_loop (Some add_worklog) t (r\<lparr> skipped := skipped r + 1 \<rparr>, calls) es"
      by simp
    with IH [of "r\<lparr> skipped := skipped r + 1 \<rparr>" calls] ex show ?thesis by simp
  next
    case False
    from readable_duration [OF this_one False, of t] obtain seconds where
      secs: "duration_seconds t e = Inr seconds" by blast
    show ?thesis
    proof (cases "seconds < 60")
      case True
      with secs have ex: "excluded t e" by (simp add: excluded_def too_short_def)
      from False secs True have "submit_loop (Some add_worklog) t (r, calls) (e # es)
          = submit_loop (Some add_worklog) t (r\<lparr> skipped := skipped r + 1 \<rparr>, calls) es"
        by simp
      with IH [of "r\<lparr> skipped := skipped r + 1 \<rparr>" calls] ex show ?thesis by simp
    next
      case long: False
      with secs False have nex: "\<not> excluded t e"
        by (simp add: excluded_def too_short_def issue_missing_iff)
      have call: "call_of t e
          = \<lparr> issue_key = (case jira_issue e of None \<Rightarrow> [] | Some s \<Rightarrow> s),
              time_spent_seconds = seconds,
              work_description = get_description e,
              work_start_time = entry_start_time e \<rparr>"
        by (simp add: call_of_def secs)
      show ?thesis
      proof (cases "add_worklog calls (call_of t e)")
        case True
        with False secs long have "submit_loop (Some add_worklog) t (r, calls) (e # es)
            = submit_loop (Some add_worklog) t
                (r\<lparr> success := success r + 1 \<rparr>, calls @ [call_of t e]) es"
          by (simp add: call log_work_def Let_def)
        with IH [of "r\<lparr> success := success r + 1 \<rparr>" "calls @ [call_of t e]"] nex
        show ?thesis by simp
      next
        case rejected: False
        let ?r = "r\<lparr> error := error r + 1,
                    errors := errors r @
                      [(e, ''Failed to log work to issue '' @ issue_key (call_of t e))] \<rparr>"
        from rejected False secs long
        have "submit_loop (Some add_worklog) t (r, calls) (e # es)
            = submit_loop (Some add_worklog) t (?r, calls @ [call_of t e]) es"
          by (simp add: call log_work_def Let_def)
        with IH [of ?r "calls @ [call_of t e]"] nex
        show ?thesis by simp
      qed
    qed
  qed
qed

text \<open>Without a client the step raises, if an entry is to be submitted or is unreadable.\<close>

lemma submit_loop_without_client:
  "\<exists>e\<in>set es. \<not> excluded t e \<Longrightarrow> \<exists>err. submit_loop None t (r, calls) es = Inl err"
proof (induction es arbitrary: r)
  case Nil
  then show ?case by simp
next
  case (Cons e es)
  show ?case
  proof (cases "excluded t e")
    case True
    with Cons.prems have "\<exists>e\<in>set es. \<not> excluded t e" by auto
    from Cons.IH [OF this] True show ?thesis
      by (cases "no_issue e")
        (auto simp: excluded_def too_short_def issue_missing_iff split: sum.splits)
  next
    case False
    then show ?thesis
      by (auto simp: excluded_def too_short_def issue_missing_iff log_work_def Let_def
          split: sum.splits)
  qed
qed

text \<open>
  With a client, an entry that has an issue and holds \<open>None\<close> as its duration makes the
  step raise \<open>TypeError\<close>: nothing is returned, whatever was skipped or submitted before.
\<close>

lemma submit_loop_type_error:
  "\<exists>e\<in>set es. duration_unreadable e
     \<Longrightarrow> submit_loop (Some add_worklog) t (r, calls) es = Inl TypeError"
proof (induction es arbitrary: r calls)
  case Nil
  then show ?case by simp
next
  case (Cons e es)
  show ?case
  proof (cases "duration_unreadable e")
    case True
    then show ?thesis
      by (simp add: duration_unreadable_def issue_missing_iff duration_seconds_def)
  next
    case False
    with Cons.prems have "\<exists>e\<in>set es. duration_unreadable e" by auto
    note IH = Cons.IH [OF this]
    show ?thesis
      by (auto simp: IH log_work_def Let_def duration_seconds_def
          split: sum.splits entry_field.splits py_number.splits)
  qed
qed

lemma example_excluded:
  "\<not> excluded exact_times_60 entry_ok" "excluded exact_times_60 entry_unknown"
  "excluded exact_times_60 entry_short" "excluded exact_times_60 entry_empty_issue"
  "\<not> excluded_absent_or_unknown exact_times_60 entry_empty_issue"
  by (simp_all add: excluded_def excluded_absent_or_unknown_def issue_missing_def
      too_short_exact entry_ok_def entry_unknown_def entry_short_def entry_empty_issue_def)

lemma example_readable:
  "\<not> duration_unreadable entry_ok" "\<not> duration_unreadable entry_unknown"
  "\<not> duration_unreadable entry_short" "\<not> duration_unreadable entry_empty_issue"
  "duration_unreadable entry_no_duration"
  by (simp_all add: duration_unreadable_def issue_missing_def entry_ok_def entry_unknown_def
      entry_short_def entry_empty_issue_def entry_no_duration_def)

lemma example_type_error:
  "submit_time_entries (Some (\<lambda>calls call. True)) exact_times_60
     [entry_ok, entry_no_duration, entry_unknown] = Inl TypeError"
  unfolding submit_time_entries_def
  by (rule submit_loop_type_error) (simp add: example_readable)

text \<open>
  C9 (as amended). For every list of time entries in which no entry with an issue holds
  \<open>None\<close> as its duration, and with a Jira client at hand, the submission step returns;
  it leaves out, and counts as skipped, exactly the entries whose issue is absent,
  \<open>None\<close>, empty or equal to \<open>"unknown"\<close>, and those whose duration in seconds, computed
  as \<open>int(duration_minutes * 60)\<close> (the product cut to an integer), is less than 60;
  every other entry, in the order of the list, is handed to \<open>log_work\<close> with its issue,
  these seconds, its description and start time, and counted as a success or as an error.
\<close>

theorem submit_skips_excluded:
  assumes "\<forall>e\<in>set entries. \<not> duration_unreadable e"
  shows "\<exists>results calls.
     submit_time_entries (Some add_worklog) float_times_60 entries = Inr (results, calls)
     \<and> skipped results = length (filter (excluded float_times_60) entries)
     \<and> calls = map (call_of float_times_60)
                 (filter (\<lambda>e. \<not> excluded float_times_60 e) entries)
     \<and> success results + error results
         = length (filter (\<lambda>e. \<not> excluded float_times_60 e) entries)"
  using submit_loop_eq [OF assms, of add_worklog float_times_60
      "\<lparr> success = 0, error = 0, skipped = 0, errors = [] \<rparr>" "[]"]
  by (simp add: submit_time_entries_def)

theorem submit_skips_excluded_witness:
  "\<not> duration_unreadable entry_ok \<and> \<not> duration_unreadable entry_unknown
   \<and> \<not> duration_unreadable entry_short \<and> \<not> duration_unreadable entry_empty_issue
   \<and> submit_time_entries (Some (\<lambda>calls call. True)) exact_times_60
       [entry_ok, entry_unknown, entry_short, entry_empty_issue]
     = Inr (\<lparr> success = 1, error = 0, skipped = 3, errors = [] \<rparr>,
            [call_of exact_times_60 entry_ok])
   \<and> length (filter (excluded exact_times_60)
        [entry_ok, entry_unknown, entry_short, entry_empty_issue]) = 3
   \<and> map (call_of exact_times_60) (filter (\<lambda>e. \<not> excluded exact_times_60 e)
        [entry_ok, entry_unknown, entry_short, entry_empty_issue])
       = [call_of exact_times_60 entry_ok]
   \<and> call_of exact_times_60 entry_ok
       = \<lparr> issue_key = ''PROJ-1'', time_spent_seconds = 1800,
           work_description = Some ''Standup'',
           work_start_time = Some (wall_at 0 19723 9 0) \<rparr>"
proof -
  let ?es = "[entry_ok, entry_unknown, entry_short, entry_empty_issue]"
  have h: "\<forall>e\<in>set ?es. \<not> duration_unreadable e"
    by (simp add: example_readable)
  from submit_skips_excluded [OF h, of "\<lambda>calls call. True" exact_times_60]
  obtain results calls where
    r: "submit_time_entries (Some (\<lambda>calls call. True)) exact_times_60 ?es
          = Inr (results, calls)"
       "skipped results = length (filter (excluded exact_times_60) ?es)"
       "calls = map (call_of exact_times_60) (filter (\<lambda>e. \<not> excluded exact_times_60 e) ?es)"
    by blast
  have n: "\<not> no_issue entry_ok" "no_issue entry_unknown" "\<not> no_issue entry_short"
    "no_issue entry_empty_issue"
    by (simp_all add: no_issue_def entry_ok_def entry_unknown_def entry_short_def
        entry_empty_issue_def)
  have d: "duration_seconds exact_times_60 entry_ok = Inr 1800"
    "duration_seconds exact_times_60 entry_short = Inr 30"
    by (simp_all add: duration_seconds_def exact_times_60_def py_int_def entry_ok_def
        entry_short_def)
  have c: "call_of exact_times_60 entry_ok
       = \<lparr> issue_key = ''PROJ-1'', time_spent_seconds = 1800,
           work_description = Some ''Standup'',
           work_start_time = Some (wall_at 0 19723 9 0) \<rparr>"
    unfolding call_of_def d by (simp add: get_description_def entry_ok_def)
  have e: "submit_time_entries (Some (\<lambda>calls call. True)) exact_times_60 ?es
     = Inr (\<lparr> success = 1, error = 0, skipped = 3, errors = [] \<rparr>,
            [call_of exact_times_60 entry_ok])"
    by (simp add: submit_time_entries_def n d call_of_def log_work_def Let_def)
  from r e c show ?thesis by (simp add: example_excluded example_readable)
qed

text \<open>
  The claim as it is written fails for an entry whose issue is the empty string: the
  issue is neither absent nor \<open>"unknown"\<close> and the entry lasts thirty minutes, and it is
  skipped, with no call of \<open>log_work\<close>.
\<close>

theorem empty_issue_is_skipped:
  "\<not> excluded_absent_or_unknown exact_times_60 entry_empty_issue
   \<and> submit_time_entries (Some (\<lambda>calls call. True)) exact_times_60 [entry_empty_issue]
       = Inr (\<lparr> success = 0, error = 0, skipped = 1, errors = [] \<rparr>, [])"
proof -
  have "no_issue entry_empty_issue"
    by (simp add: no_issue_def entry_empty_issue_def)
  then show ?thesis
    by (simp add: submit_time_entries_def example_excluded)
qed

section \<open>Properties of the date-range filter\<close>

lemma filter_activities_by_date_filter:
  "filter_activities_by_date xs s e = filter (contained_in s e) xs"
  by (induction xs) (simp_all add: contained_in_def dt_le_def)

text \<open>
  C10. The date-range filter returns exactly the activities that start at or after
  \<open>start_date\<close> and end at or before \<open>end_date\<close>, each one unchanged and in the order
  of the input; an activity that overlaps the range only partially is not in the result
  at all, clipped or otherwise.
\<close>

theorem filter_activities_by_date_contained:
  "filter_activities_by_date xs s e = filter (contained_in s e) xs
   \<and> subseq (filter_activities_by_date xs s e) xs
   \<and> (\<forall>a. a \<in> set (filter_activities_by_date xs s e)
          \<longleftrightarrow> a \<in> set xs \<and> instant s \<le> instant (start_time a)
                         \<and> instant (end_time a) \<le> instant e)
   \<and> (\<forall>a. partially_overlaps s e a \<longrightarrow> a \<notin> set (filter_activities_by_date xs s e))"
  by (auto simp: filter_activities_by_date_filter contained_in_def partially_overlaps_def)

theorem filter_activities_by_date_contained_witness:
  "partially_overlaps (wall_at 0 19723 0 0) (wall_at 0 19723 23 59) over_midnight
   \<and> over_midnight \<notin> set (filter_activities_by_date [meeting_A, over_midnight, day_two]
                              (wall_at 0 19723 0 0) (wall_at 0 19723 23 59))
   \<and> filter_activities_by_date [meeting_A, over_midnight, day_two]
        (wall_at 0 19723 0 0) (wall_at 0 19723 23 59) = [meeting_A]"
proof -
  have p: "partially_overlaps (wall_at 0 19723 0 0) (wall_at 0 19723 23 59) over_midnight"
    by (simp add: partially_overlaps_def contained_in_def over_midnight_def example_defs)
  have c: "contained_in (wall_at 0 19723 0 0) (wall_at 0 19723 23 59) meeting_A"
    "\<not> contained_in (wall_at 0 19723 0 0) (wall_at 0 19723 23 59) over_midnight"
    "\<not> contained_in (wall_at 0 19723 0 0) (wall_at 0 19723 23 59) day_two"
    by (simp_all add: contained_in_def meeting_A_def over_midnight_def day_two_def example_defs)
  let ?X = "[meeting_A, over_midnight, day_two]"
  let ?s = "wall_at 0 19723 0 0" and ?e = "wall_at 0 19723 23 59"
  from filter_activities_by_date_contained [of ?X ?s ?e]
  have eq: "filter_activities_by_date ?X ?s ?e = filter (contained_in ?s ?e) ?X"
    and np: "\<forall>a. partially_overlaps ?s ?e a \<longrightarrow> a \<notin> set (filter_activities_by_date ?X ?s ?e)"
    by blast+
  have r: "filter_activities_by_date ?X ?s ?e = [meeting_A]"
    unfolding eq using c by simp
  from np p have "over_midnight \<notin> set (filter_activities_by_date ?X ?s ?e)" by blast
  with p r show ?thesis by blast
qed

end
